theory Spec2Isabelle
  imports Main "HOL-Library.AList" "HOL-Library.Sublist"
begin

section \<open>Strings, enumerations and configuration records\<close>

text \<open>
  A Python \<open>str\<close> is a sequence of Unicode code points; the classifier's keywords are
  Cyrillic and Chinese words, so a string is a list of code points and not a list of
  bytes. \<open>ascii\<close> reads an ASCII literal as such a string.
\<close>

type_synonym pystr = "nat list"

definition ascii :: "string \<Rightarrow> pystr" where
  "ascii s = map of_char s"

text \<open>
  Python truthiness of an \<open>Optional[str]\<close>: \<open>None\<close> and the empty string are false
  (\<open>if not self.current_model\<close>, \<open>if not model_key\<close>, \<open>if request.task_type\<close>).
\<close>

definition truthy :: "pystr option \<Rightarrow> bool" where
  "truthy v = (case v of None \<Rightarrow> False | Some k \<Rightarrow> k \<noteq> [])"

datatype ModelState = UNLOADED | LOADING | LOADED | UNLOADING | ERROR

datatype TaskType = CONTENT_TRANSFORMATION | TRANSLATION

text \<open>
  \<open>ModelConfig\<close> of model_manager.py. The float fields estimated_vram_gb and
  gpu_memory_utilization are handed to the engine only; no branch of the manager reads
  them and they are left out. The field \<open>alias\<close> is \<open>model_alias\<close> here.
\<close>

record ModelConfig =
  name :: pystr
  model_alias :: pystr
  task_type :: TaskType
  tensor_parallel_size :: nat
  max_model_len :: nat

text \<open>\<open>TaskType.value\<close> and the constructor \<open>TaskType(value)\<close>, which raises ValueError
  (here \<open>None\<close>) on any other string.\<close>

fun TaskType_value :: "TaskType \<Rightarrow> pystr" where
  "TaskType_value CONTENT_TRANSFORMATION = ascii ''content_transformation''"
| "TaskType_value TRANSLATION = ascii ''translation''"

definition TaskType_of :: "pystr \<Rightarrow> TaskType option" where
  "TaskType_of v =
     (if v = ascii ''content_transformation'' then Some CONTENT_TRANSFORMATION
      else if v = ascii ''translation'' then Some TRANSLATION
      else None)"

section \<open>The model manager (vllm/model\_manager.py)\<close>

text \<open>
  The engine handle is opaque; it remembers the model name it was built from.
  Every assignment to \<open>model_states\<close> and every engine construction or release is
  also appended to \<open>trace\<close>, a log the source does not keep: it is the observable
  sequence of state changes that the ordering and counting properties speak about.
  \<open>lock\<close> is whether the manager's \<open>threading.Lock\<close> is held.
\<close>

datatype engine = AsyncLLMEngine pystr

datatype event = StateChange pystr ModelState | EngineConstruct pystr | EngineDrop

record manager =
  models :: "(pystr \<times> ModelConfig) list"
  current_model :: "pystr option"
  model_states :: "(pystr \<times> ModelState) list"
  vllm_engine :: "engine option"
  lock :: bool
  trace :: "event list"

text \<open>
  What lies outside the repository: Python's \<open>str.lower\<close>, whether
  \<open>AsyncLLMEngine.from_engine_args\<close> (or the import before it) raises for a model
  name, an exception injected into the body of \<open>unload_current_model\<close>, either
  at the release of the engine (lines 133-136) or at the cleanup call (line 138), and
  what the engine's generation and the assembly of the answer (dynamic_server.py, lines
  156-221) come to for a prompt: the answer's text, or an exception (the source's own
  "No output generated" among them, and the AttributeError of line 188 when
  \<open>final_output.outputs\<close> is a plain list).
  The source's own cleanup swallows its exceptions, so without injection the fault is
  \<open>NoFault\<close>.
\<close>

datatype unload_fault = NoFault | FaultAtEngineRelease | FaultAtCleanup

datatype generation_result = GenerationRaises pystr | GenerationReturns pystr

record env =
  str_lower :: "pystr \<Rightarrow> pystr"
  construct_raises :: "pystr \<Rightarrow> bool"
  unload_fault :: unload_fault
  generation :: "engine \<Rightarrow> pystr \<Rightarrow> generation_result"

text \<open>
  An \<open>async\<close> method of the manager either returns its boolean with the new state, or
  never returns: \<open>with self.lock\<close> on a \<open>threading.Lock\<close> that is already held blocks
  the only thread of the event loop for ever, in the state it has reached.
\<close>

datatype outcome = Returns bool manager | Deadlock manager

fun final_state :: "outcome \<Rightarrow> manager" where
  "final_state (Returns r s) = s"
| "final_state (Deadlock s) = s"

fun returned :: "outcome \<Rightarrow> bool option" where
  "returned (Returns r s) = Some r"
| "returned (Deadlock s) = None"

text \<open>Leaving the \<open>with self.lock\<close> block, by return or by exception, releases the lock.\<close>

fun release :: "outcome \<Rightarrow> outcome" where
  "release (Returns r s) = Returns r (s\<lparr>lock := False\<rparr>)"
| "release (Deadlock s) = Deadlock s"

definition set_state :: "pystr \<Rightarrow> ModelState \<Rightarrow> manager \<Rightarrow> manager" where
  "set_state k v s =
     s\<lparr>model_states := AList.update k v (model_states s),
       trace := trace s @ [StateChange k v]\<rparr>"

definition content_model :: ModelConfig where
  "content_model =
     \<lparr>name = ascii ''Qwen/Qwen2.5-VL-32B-Instruct'', model_alias = ascii ''content-transformer'',
      task_type = CONTENT_TRANSFORMATION, tensor_parallel_size = 2, max_model_len = 8192\<rparr>"

definition translation_model :: ModelConfig where
  "translation_model =
     \<lparr>name = ascii ''Qwen/Qwen2.5-32B-Instruct'', model_alias = ascii ''translator'',
      task_type = TRANSLATION, tensor_parallel_size = 2, max_model_len = 8192\<rparr>"

text \<open>\<open>_register_models\<close>: the registry, and every registered key set to UNLOADED.\<close>

definition register_models :: "manager \<Rightarrow> manager" where
  "register_models s =
     (let s1 = s\<lparr>models := [(ascii ''content_transformation'', content_model),
                             (ascii ''translation'', translation_model)]\<rparr>
      in fold (\<lambda>model_key. set_state model_key UNLOADED) (map fst (models s1)) s1)"

text \<open>\<open>DynamicModelManager.__init__\<close>.\<close>

definition init_manager :: manager where
  "init_manager =
     register_models
       \<lparr>models = [], current_model = None, model_states = [], vllm_engine = None,
        lock = False, trace = []\<rparr>"

text \<open>
  The body of \<open>unload_current_model\<close> under the lock (lines 129-148), for the resident
  key \<open>k\<close>. An exception leaves the \<open>try\<close> at the point it is raised; the handler
  logs and returns False without touching any state.
\<close>

definition unload_locked :: "env \<Rightarrow> pystr \<Rightarrow> manager \<Rightarrow> outcome" where
  "unload_locked e k s =
     (let s1 = set_state k UNLOADING s in
      if vllm_engine s1 \<noteq> None \<and> unload_fault e = FaultAtEngineRelease
      then Returns False s1
      else
        let s2 = (if vllm_engine s1 \<noteq> None
                  then s1\<lparr>vllm_engine := None, trace := trace s1 @ [EngineDrop]\<rparr>
                  else s1) in
        if unload_fault e = FaultAtCleanup then Returns False s2
        else Returns True ((set_state k UNLOADED s2)\<lparr>current_model := None\<rparr>))"

definition unload_current_model :: "env \<Rightarrow> manager \<Rightarrow> outcome" where
  "unload_current_model e s =
     (if \<not> truthy (current_model s) then Returns True s
      else if lock s then Deadlock s
      else
        (case current_model s of
           None \<Rightarrow> Returns True s
         | Some k \<Rightarrow> release (unload_locked e k (s\<lparr>lock := True\<rparr>))))"

text \<open>
  Lines 175-198 and the handler of lines 200-203: build the engine for the
  configuration; on success record it, on an exception set the key to ERROR.
\<close>

definition create_engine :: "env \<Rightarrow> pystr \<Rightarrow> ModelConfig \<Rightarrow> manager \<Rightarrow> outcome" where
  "create_engine e model_key model_config s =
     (let s1 = s\<lparr>trace := trace s @ [EngineConstruct (name model_config)]\<rparr> in
      if construct_raises e (name model_config)
      then Returns False (set_state model_key ERROR s1)
      else Returns True
             (set_state model_key LOADED
                (s1\<lparr>vllm_engine := Some (AsyncLLMEngine (name model_config)),
                    current_model := Some model_key\<rparr>)))"

text \<open>
  The body of \<open>load_model\<close> under the lock (lines 159-203). Reading
  \<open>self.model_states[model_key]\<close> for a key without an entry raises KeyError, which the
  handler of line 200 turns into ERROR and False. The nested call of
  \<open>unload_current_model\<close> is made with the lock held.
\<close>

definition load_continue :: "env \<Rightarrow> pystr \<Rightarrow> ModelConfig \<Rightarrow> manager \<Rightarrow> outcome" where
  "load_continue e model_key model_config s =
     (let s1 = set_state model_key LOADING s in
      if truthy (current_model s1) \<and> current_model s1 \<noteq> Some model_key
      then
        (case unload_current_model e s1 of
           Deadlock s2 \<Rightarrow> Deadlock s2
         | Returns ok s2 \<Rightarrow>
             if \<not> ok then Returns False s2
             else create_engine e model_key model_config s2)
      else create_engine e model_key model_config s1)"

definition load_locked :: "env \<Rightarrow> pystr \<Rightarrow> ModelConfig \<Rightarrow> manager \<Rightarrow> outcome" where
  "load_locked e model_key model_config s =
     (if current_model s = Some model_key
      then
        (case map_of (model_states s) model_key of
           None \<Rightarrow> Returns False (set_state model_key ERROR s)
         | Some st \<Rightarrow>
             if st = LOADED then Returns True s
             else load_continue e model_key model_config s)
      else load_continue e model_key model_config s)"

definition load_model :: "env \<Rightarrow> pystr \<Rightarrow> manager \<Rightarrow> outcome" where
  "load_model e model_key s =
     (case map_of (models s) model_key of
        None \<Rightarrow> Returns False s
      | Some model_config \<Rightarrow>
          if lock s then Deadlock s
          else release (load_locked e model_key model_config (s\<lparr>lock := True\<rparr>)))"

text \<open>
  \<open>ensure_model_loaded\<close>: the first registry entry serving the task type; a key that is
  missing or empty is "not found".
\<close>

definition ensure_model_loaded :: "env \<Rightarrow> TaskType \<Rightarrow> manager \<Rightarrow> outcome" where
  "ensure_model_loaded e t s =
     (case find (\<lambda>(key, config). task_type config = t) (models s) of
        None \<Rightarrow> Returns False s
      | Some (model_key, config) \<Rightarrow>
          if model_key = [] then Returns False s
          else if current_model s \<noteq> Some model_key
                  \<or> map_of (model_states s) model_key \<noteq> Some LOADED
          then load_model e model_key s
          else Returns True s)"

section \<open>The task classifier (vllm/dynamic\_server.py)\<close>

record ChatMessage =
  role :: pystr
  content :: pystr

text \<open>\<open>sep.join(parts)\<close> and the substring test \<open>keyword in text\<close> of Python.\<close>

fun join :: "pystr \<Rightarrow> pystr list \<Rightarrow> pystr" where
  "join sep [] = []"
| "join sep [x] = x"
| "join sep (x # y # ys) = x @ sep @ join sep (y # ys)"

fun contains :: "pystr \<Rightarrow> pystr \<Rightarrow> bool" where
  "contains keyword [] = (keyword = [])"
| "contains keyword (c # cs) = (take (length keyword) (c # cs) = keyword \<or> contains keyword cs)"

text \<open>The two keyword lists of lines 89-98, as code points.\<close>

definition content_keywords :: "pystr list" where
  "content_keywords =
     [[1087, 1088, 1077, 1086, 1073, 1088, 1072, 1079, 1091, 1081],
      ascii ''markdown'',
      [1089, 1090, 1088, 1091, 1082, 1090, 1091, 1088, 1072],
      [1090, 1072, 1073, 1083, 1080, 1094, 1072],
      ascii ''pdf'',
      [1076, 1086, 1082, 1091, 1084, 1077, 1085, 1090],
      [1080, 1079, 1074, 1083, 1077, 1095, 1077, 1085, 1080, 1077],
      [1092, 1086, 1088, 1084, 1072, 1090, 1080, 1088, 1086, 1074, 1072, 1085, 1080, 1077]]"

definition translation_keywords :: "pystr list" where
  "translation_keywords =
     [[1087, 1077, 1088, 1077, 1074, 1077, 1076, 1080],
      ascii ''translate'',
      [1087, 1077, 1088, 1077, 1074, 1086, 1076],
      ascii ''translation'',
      [1088, 1091, 1089, 1089, 1082, 1080, 1081],
      ascii ''english'',
      [20013, 25991],
      [1103, 1079, 1099, 1082],
      ascii ''language'']"

text \<open>\<open>sum(1 for keyword in keywords if keyword in combined_text)\<close>.\<close>

definition keyword_score :: "pystr list \<Rightarrow> pystr \<Rightarrow> nat" where
  "keyword_score keywords combined_text =
     length (filter (\<lambda>keyword. contains keyword combined_text) keywords)"

text \<open>
  \<open>determine_task_type_from_messages\<close>. Nothing in its \<open>try\<close> raises on a list of
  messages whose contents are strings, so the handler's default is never taken.
\<close>

definition determine_task_type_from_messages :: "env \<Rightarrow> ChatMessage list \<Rightarrow> TaskType" where
  "determine_task_type_from_messages e messages =
     (let combined_text = join (ascii '' '') (map (\<lambda>msg. str_lower e (content msg)) messages);
          content_score = keyword_score content_keywords combined_text;
          translation_score = keyword_score translation_keywords combined_text
      in if translation_score > content_score then TRANSLATION
         else CONTENT_TRANSFORMATION)"



section \<open>The HTTP handlers (vllm/dynamic\_server.py)\<close>

text \<open>
  Of a request only the messages and the optional task type decide a branch. The
  \<open>detail\<close> of an HTTPException is kept as the message's kind and its parameters rather
  than as the formatted Russian text; \<open>StrOf x\<close> is \<open>str(x)\<close> of a caught exception.
\<close>

record ChatCompletionRequest =
  req_model :: pystr
  req_messages :: "ChatMessage list"
  req_task_type :: "pystr option"

datatype py_exception = HTTPException nat detail | Exception pystr
  and detail =
    ModelNotReadyFor TaskType
  | EngineUnavailable
  | GenerationError py_exception
  | UnknownModel pystr "pystr list"
  | ModelLoadFailed pystr
  | StrOf py_exception

datatype response = ChatCompletion pystr TaskType "pystr option" | SwapSuccess "pystr option"

datatype reply = Responds response | Raises py_exception | NeverResponds

text \<open>Lines 118-127: the task type of a request.\<close>

definition resolve_task_type :: "env \<Rightarrow> ChatCompletionRequest \<Rightarrow> TaskType" where
  "resolve_task_type e request =
     (let task_type =
            (if truthy (req_task_type request)
             then (case req_task_type request of None \<Rightarrow> None | Some v \<Rightarrow> TaskType_of v)
             else None)
      in case task_type of
           None \<Rightarrow> determine_task_type_from_messages e (req_messages request)
         | Some t \<Rightarrow> t)"

text \<open>Lines 143-154: the prompt in the Qwen format.\<close>

definition prompt_part :: "ChatMessage \<Rightarrow> pystr list" where
  "prompt_part message =
     (if role message = ascii ''system''
      then [ascii ''<|im_start|>system'' @ [10] @ content message @ ascii ''<|im_end|>'']
      else if role message = ascii ''user''
      then [ascii ''<|im_start|>user'' @ [10] @ content message @ ascii ''<|im_end|>'']
      else if role message = ascii ''assistant''
      then [ascii ''<|im_start|>assistant'' @ [10] @ content message @ ascii ''<|im_end|>'']
      else [])"

definition format_prompt :: "ChatMessage list \<Rightarrow> pystr" where
  "format_prompt messages =
     join [10] (concat (map prompt_part messages) @ [ascii ''<|im_start|>assistant'' @ [10]])"

text \<open>
  The \<open>try\<close> body of \<open>create_chat_completion\<close> (lines 116-221): what it returns or
  raises, and the manager's state after it. When \<open>ensure_model_loaded\<close> never returns,
  neither does the handler.
\<close>

definition chat_completion_try :: "env \<Rightarrow> ChatCompletionRequest \<Rightarrow> manager \<Rightarrow> reply \<times> manager" where
  "chat_completion_try e request s =
     (let task_type = resolve_task_type e request in
      case ensure_model_loaded e task_type s of
        Deadlock s' \<Rightarrow> (NeverResponds, s')
      | Returns model_ready s' \<Rightarrow>
          if \<not> model_ready then (Raises (HTTPException 503 (ModelNotReadyFor task_type)), s')
          else
            (case vllm_engine s' of
               None \<Rightarrow> (Raises (HTTPException 503 EngineUnavailable), s')
             | Some eng \<Rightarrow>
                 (case generation e eng (format_prompt (req_messages request)) of
                    GenerationRaises x \<Rightarrow> (Raises (Exception x), s')
                  | GenerationReturns generated_text \<Rightarrow>
                      (Responds (ChatCompletion generated_text task_type (current_model s')), s'))))"

text \<open>
  Lines 223-225: \<open>except Exception as e\<close> around the whole body. HTTPException is a
  subclass of Exception, so the handler catches the body's own HTTPExceptions too.
\<close>

definition create_chat_completion :: "env \<Rightarrow> ChatCompletionRequest \<Rightarrow> manager \<Rightarrow> reply \<times> manager" where
  "create_chat_completion e request s =
     (case chat_completion_try e request s of
        (Raises x, s') \<Rightarrow> (Raises (HTTPException 500 (GenerationError x)), s')
      | (r, s') \<Rightarrow> (r, s'))"

text \<open>\<open>swap_model\<close> (lines 228-256), with the same shape.\<close>

definition swap_model_try :: "env \<Rightarrow> pystr \<Rightarrow> manager \<Rightarrow> reply \<times> manager" where
  "swap_model_try e model_key s =
     (if map_of (models s) model_key = None
      then (Raises (HTTPException 400 (UnknownModel model_key (map fst (models s)))), s)
      else
        (case load_model e model_key s of
           Deadlock s' \<Rightarrow> (NeverResponds, s')
         | Returns success s' \<Rightarrow>
             if success then (Responds (SwapSuccess (current_model s')), s')
             else (Raises (HTTPException 503 (ModelLoadFailed model_key)), s')))"

definition swap_model :: "env \<Rightarrow> pystr \<Rightarrow> manager \<Rightarrow> reply \<times> manager" where
  "swap_model e model_key s =
     (case swap_model_try e model_key s of
        (Raises x, s') \<Rightarrow> (Raises (HTTPException 500 (StrOf x)), s')
      | (r, s') \<Rightarrow> (r, s'))"

text \<open>
  The status code of a reply, if it has one. An exception that is not an HTTPException
  never leaves the two handlers; the framework would answer it with 500.
\<close>

fun status_code :: "reply \<Rightarrow> nat option" where
  "status_code (Responds r) = Some 200"
| "status_code (Raises (HTTPException c d)) = Some c"
| "status_code (Raises (Exception x)) = Some 500"
| "status_code NeverResponds = None"

section \<open>Runs of the manager, and what is stated about them\<close>

text \<open>
  A run is a sequence of calls of the manager's three operations, each under an
  environment of its own (so an engine failure can be injected into any call). The
  three coroutines have no suspension point but the nested call of
  \<open>unload_current_model\<close>, so on the one event loop of the server (\<open>workers=1\<close>)
  calls do not interleave. A call that never returns leaves the manager in the state it
  hangs in, with the lock held; whatever is called after it finds the lock held.
\<close>

datatype call = Load pystr | Unload | Ensure TaskType

fun run_call :: "env \<Rightarrow> call \<Rightarrow> manager \<Rightarrow> outcome" where
  "run_call e (Load model_key) s = load_model e model_key s"
| "run_call e Unload s = unload_current_model e s"
| "run_call e (Ensure t) s = ensure_model_loaded e t s"

fun run :: "(env \<times> call) list \<Rightarrow> manager \<Rightarrow> manager" where
  "run [] s = s"
| "run ((e, c) # cs) s = run cs (final_state (run_call e c s))"

definition loaded_keys :: "manager \<Rightarrow> pystr set" where
  "loaded_keys s = {k. map_of (model_states s) k = Some LOADED}"

text \<open>
  The invariant behind the capacity property: no registered key is the empty string,
  the current model is a registered key, and a key that is LOADED is the current model.
\<close>

definition resident_inv :: "manager \<Rightarrow> bool" where
  "resident_inv s \<longleftrightarrow>
     map_of (models s) [] = None \<and>
     (\<forall>k. current_model s = Some k \<longrightarrow> map_of (models s) k \<noteq> None) \<and>
     (\<forall>k. map_of (model_states s) k = Some LOADED \<longrightarrow> current_model s = Some k)"

text \<open>
  Concrete environments for the worked examples. On ASCII text \<open>str.lower\<close> maps
  \<open>A..Z\<close> to \<open>a..z\<close> and leaves the rest.
\<close>

definition lower_ascii :: "pystr \<Rightarrow> pystr" where
  "lower_ascii = map (\<lambda>c. if 65 \<le> c \<and> c \<le> 90 then c + 32 else c)"

definition quiet_env :: env where
  "quiet_env =
     \<lparr>str_lower = lower_ascii, construct_raises = (\<lambda>n. False), unload_fault = NoFault,
      generation = (\<lambda>eng prompt. GenerationReturns (ascii ''ok''))\<rparr>"

definition load_failure_env :: env where
  "load_failure_env = quiet_env\<lparr>construct_raises := (\<lambda>n. True)\<rparr>"

definition unload_failure_env :: env where
  "unload_failure_env = quiet_env\<lparr>unload_fault := FaultAtCleanup\<rparr>"

text \<open>The manager after start-up: \<open>initialize_model_manager\<close> has loaded the content model.\<close>

definition started_manager :: manager where
  "started_manager = final_state (load_model quiet_env (ascii ''content_transformation'') init_manager)"

text \<open>A request of the worked examples.\<close>

definition pdf_request :: ChatCompletionRequest where
  "pdf_request =
     \<lparr>req_model = ascii ''content-transformer'',
      req_messages = [\<lparr>role = ascii ''user'', content = ascii ''Convert this PDF to Markdown''\<rparr>],
      req_task_type = None\<rparr>"

text \<open>The number of engine constructions in a trace.\<close>

definition engine_constructs :: "event list \<Rightarrow> nat" where
  "engine_constructs tr =
     length (filter (\<lambda>ev. case ev of EngineConstruct n \<Rightarrow> True | _ \<Rightarrow> False) tr)"

text \<open>
  A monitor for the order of evictions and fills. It reads a trace from the left and
  keeps the key that has reached LOADED and has not reached UNLOADED or ERROR since
  (the pending key); its flag falls for good when a key reaches LOADED while another
  key is pending.
\<close>

fun monitor_step :: "bool \<times> pystr option \<Rightarrow> event \<Rightarrow> bool \<times> pystr option" where
  "monitor_step (ok, r) (StateChange k st) =
     (if st = LOADED then (ok \<and> (r = None \<or> r = Some k), Some k)
      else if (st = UNLOADED \<or> st = ERROR) \<and> r = Some k then (ok, None)
      else (ok, r))"
| "monitor_step (ok, r) (EngineConstruct n) = (ok, r)"
| "monitor_step (ok, r) EngineDrop = (ok, r)"

definition monitor :: "event list \<Rightarrow> bool \<times> pystr option" where
  "monitor tr = foldl monitor_step (True, None) tr"

text \<open>
  The invariant behind the ordering property: the residency invariant, the monitor's
  flag still up, its pending key none or the current model, and every LOADED key
  pending.
\<close>

definition good_inv :: "manager \<Rightarrow> bool" where
  "good_inv s \<longleftrightarrow> resident_inv s \<and> fst (monitor (trace s)) \<and>
     snd (monitor (trace s)) \<in> {None, current_model s} \<and>
     (\<forall>k. map_of (model_states s) k = Some LOADED \<longrightarrow> snd (monitor (trace s)) = Some k)"

section \<open>Helper lemmas\<close>

lemma ascii_simps [simp]: "ascii [] = []" "ascii (c # cs) = of_char c # ascii cs"
  by (simp_all add: ascii_def)

lemma load_model_unknown_key:
  "map_of (models s) model_key = None \<Longrightarrow> load_model e model_key s = Returns False s"
  by (simp add: load_model_def)

lemma unload_lock_held:
  "lock s \<Longrightarrow> truthy (current_model s) \<Longrightarrow> unload_current_model e s = Deadlock s"
  by (simp add: unload_current_model_def)

lemma models_set_state [simp]: "models (set_state k v s) = models s"
  and current_set_state [simp]: "current_model (set_state k v s) = current_model s"
  and lock_set_state [simp]: "lock (set_state k v s) = lock s"
  and engine_set_state [simp]: "vllm_engine (set_state k v s) = vllm_engine s"
  and states_set_state [simp]:
    "map_of (model_states (set_state k v s)) = (map_of (model_states s))(k \<mapsto> v)"
  and trace_set_state [simp]: "trace (set_state k v s) = trace s @ [StateChange k v]"
  by (simp_all add: set_state_def update_conv')

text \<open>Inside \<open>load_model\<close> the lock is held, so the nested unload of a swap blocks.\<close>

lemma load_continue_held:
  "lock s \<Longrightarrow> load_continue e k cfg s =
     (if truthy (current_model s) \<and> current_model s \<noteq> Some k
      then Deadlock (set_state k LOADING s)
      else create_engine e k cfg (set_state k LOADING s))"
  by (simp add: load_continue_def Let_def unload_lock_held)

lemma release_final [simp]:
  "final_state (release out) =
     (final_state out)\<lparr>lock := (case out of Returns r s \<Rightarrow> False | Deadlock s \<Rightarrow> lock s)\<rparr>"
  by (cases out) simp_all

subsection \<open>The residency invariant is kept by every operation\<close>

lemma inv_lock [simp]: "resident_inv (s\<lparr>lock := b\<rparr>) = resident_inv s"
  by (simp add: resident_inv_def)

lemma inv_trace [simp]: "resident_inv (s\<lparr>trace := b\<rparr>) = resident_inv s"
  by (simp add: resident_inv_def)

lemma inv_set_state: "resident_inv s \<Longrightarrow> v \<noteq> LOADED \<Longrightarrow> resident_inv (set_state k v s)"
  by (simp add: resident_inv_def)

lemma unload_inv:
  "resident_inv s \<Longrightarrow> resident_inv (final_state (unload_current_model e s))"
  by (auto simp: resident_inv_def unload_current_model_def unload_locked_def Let_def truthy_def
           split: option.splits if_splits)

lemma create_inv:
  "resident_inv s \<Longrightarrow> map_of (models s) k \<noteq> None \<Longrightarrow>
   \<not> (truthy (current_model s) \<and> current_model s \<noteq> Some k) \<Longrightarrow>
   resident_inv (final_state (create_engine e k cfg s))"
  unfolding create_engine_def Let_def resident_inv_def truthy_def
  by (auto split: option.splits)

lemma load_inv:
  assumes "resident_inv s"
  shows "resident_inv (final_state (load_model e k s))"
proof (cases "map_of (models s) k")
  case None
  then show ?thesis using assms by (simp add: load_model_def)
next
  case (Some cfg)
  then have reg: "map_of (models s) k \<noteq> None" by simp
  show ?thesis
  proof (cases "lock s")
    case True
    then show ?thesis using assms Some by (simp add: load_model_def)
  next
    case False
    let ?s1 = "set_state k LOADING (s\<lparr>lock := True\<rparr>)"
    have i1: "resident_inv ?s1" using assms by (simp add: inv_set_state)
    have c: "\<not> (truthy (current_model s) \<and> current_model s \<noteq> Some k) \<Longrightarrow>
             resident_inv (final_state (create_engine e k cfg ?s1))"
      using create_inv[OF i1, of k e cfg] reg by simp
    show ?thesis using assms Some False c i1
      by (auto simp: load_model_def load_locked_def load_continue_held inv_set_state
               split: option.splits)
  qed
qed

lemma ensure_inv:
  "resident_inv s \<Longrightarrow> resident_inv (final_state (ensure_model_loaded e t s))"
  by (auto simp: ensure_model_loaded_def load_inv split: option.splits)

lemma run_call_inv: "resident_inv s \<Longrightarrow> resident_inv (final_state (run_call e c s))"
  by (cases c) (simp_all add: load_inv unload_inv ensure_inv)

lemma run_inv: "resident_inv s \<Longrightarrow> resident_inv (run cs s)"
  by (induction cs arbitrary: s) (auto simp: run_call_inv)

lemma init_inv: "resident_inv init_manager"
  by (simp add: resident_inv_def init_manager_def register_models_def)

lemma loaded_keys_bound:
  assumes "resident_inv s"
  shows "finite (loaded_keys s) \<and> card (loaded_keys s) \<le> 1"
proof -
  have "loaded_keys s \<subseteq> set_option (current_model s)"
    using assms by (auto simp: loaded_keys_def resident_inv_def)
  moreover have "finite (set_option (current_model s))"
    and "card (set_option (current_model s)) \<le> 1"
    by (cases "current_model s"; simp)+
  ultimately show ?thesis
    by (meson card_mono finite_subset le_trans)
qed

subsection \<open>A swap blocks on the lock\<close>

lemma unlock_id: "\<not> lock s \<Longrightarrow> s\<lparr>lock := False\<rparr> = s"
  by (cases s) simp

lemma load_model_swap_deadlock:
  assumes "map_of (models s) b = Some cfg" "\<not> lock s" "current_model s = Some a" "a \<noteq> []" "a \<noteq> b"
  shows "load_model e b s = Deadlock (set_state b LOADING (s\<lparr>lock := True\<rparr>))"
  using assms by (simp add: load_model_def load_locked_def load_continue_held truthy_def)

lemma find_registered:
  "find P ms = Some (k, c) \<Longrightarrow> map_of ms k \<noteq> None"
  by (metis find_Some_iff map_of_eq_None_iff nth_mem fst_conv image_eqI)

lemma ensure_swap_deadlock:
  assumes "find (\<lambda>(key, config). task_type config = t) (models s) = Some (b, cfg)" "b \<noteq> []"
    "\<not> lock s" "current_model s = Some a" "a \<noteq> []" "a \<noteq> b"
  shows "ensure_model_loaded e t s = Deadlock (set_state b LOADING (s\<lparr>lock := True\<rparr>))"
proof -
  from find_registered[OF assms(1)] obtain c where "map_of (models s) b = Some c" by auto
  from load_model_swap_deadlock[OF this assms(3,4,5,6)] assms show ?thesis
    by (simp add: ensure_model_loaded_def)
qed

lemma returned_Some: "returned out = Some r \<Longrightarrow> out = Returns r (final_state out)"
  by (cases out) simp_all

lemma returned_None: "returned out = None \<Longrightarrow> out = Deadlock (final_state out)"
  by (cases out) simp_all

subsection \<open>The monitor's invariant is kept by every operation\<close>

lemma monitor_snoc: "monitor (tr @ evs) = foldl monitor_step (monitor tr) evs"
  by (simp add: monitor_def)

lemma monitor_step_fst:
  "fst (monitor_step p (StateChange k st)) = (fst p \<and> (st = LOADED \<longrightarrow> snd p = None \<or> snd p = Some k))"
  by (cases p) auto

lemma monitor_step_snd:
  "snd (monitor_step p (StateChange k st)) =
     (if st = LOADED then Some k
      else if (st = UNLOADED \<or> st = ERROR) \<and> snd p = Some k then None else snd p)"
  by (cases p) auto

lemma monitor_step_other [simp]:
  "monitor_step p (EngineConstruct n) = p" "monitor_step p EngineDrop = p"
  by (cases p; simp)+

lemmas mon_simps = monitor_snoc monitor_step_fst monitor_step_snd

lemma good_lock [simp]: "good_inv (s\<lparr>lock := b\<rparr>) = good_inv s"
  by (simp add: good_inv_def)

lemma good_drop [simp]:
  "good_inv (s\<lparr>vllm_engine := x, trace := trace s @ [EngineDrop]\<rparr>) = good_inv s"
  by (simp add: good_inv_def resident_inv_def mon_simps)

lemma good_set_state: "good_inv s \<Longrightarrow> v \<noteq> LOADED \<Longrightarrow> good_inv (set_state k v s)"
  by (auto simp: good_inv_def inv_set_state mon_simps)

lemma good_clear:
  "good_inv s \<Longrightarrow> current_model s = Some k \<Longrightarrow>
   good_inv ((set_state k UNLOADED s)\<lparr>current_model := None\<rparr>)"
  by (auto simp: good_inv_def resident_inv_def mon_simps)

lemma good_unload_locked:
  assumes "good_inv s" "current_model s = Some k"
  shows "good_inv (final_state (unload_locked e k s))"
proof -
  let ?s1 = "set_state k UNLOADING s"
  have 1: "good_inv ?s1" "current_model ?s1 = Some k"
    using assms by (simp_all add: good_set_state)
  let ?s2 = "?s1\<lparr>vllm_engine := None, trace := trace ?s1 @ [EngineDrop]\<rparr>"
  have 2: "good_inv ?s2" "current_model ?s2 = Some k" using 1 by (simp_all del: trace_set_state)
  show ?thesis
    using 1 2 good_clear[OF 1] good_clear[OF 2]
    by (simp add: unload_locked_def Let_def del: trace_set_state)
qed

lemma good_unload:
  "good_inv s \<Longrightarrow> good_inv (final_state (unload_current_model e s))"
  by (simp add: unload_current_model_def good_unload_locked split: option.splits)


lemma good_create:
  assumes "good_inv s" "map_of (models s) k \<noteq> None"
    "\<not> (truthy (current_model s) \<and> current_model s \<noteq> Some k)"
  shows "good_inv (final_state (create_engine e k cfg s))"
proof -
  have c: "current_model s = None \<or> current_model s = Some k"
    using assms by (cases "current_model s") (auto simp: good_inv_def resident_inv_def truthy_def)
  then have r: "snd (monitor (trace s)) = None \<or> snd (monitor (trace s)) = Some k"
    using assms(1) by (auto simp: good_inv_def)
  show ?thesis
  proof (cases "construct_raises e (name cfg)")
    case True
    then show ?thesis using assms(1) r
      by (auto simp: create_engine_def Let_def good_inv_def resident_inv_def mon_simps)
  next
    case False
    then show ?thesis using assms(1,2) r c
      by (auto simp: create_engine_def Let_def good_inv_def resident_inv_def mon_simps)
  qed
qed


lemma good_load:
  assumes "good_inv s"
  shows "good_inv (final_state (load_model e k s))"
proof (cases "map_of (models s) k")
  case None
  then show ?thesis using assms by (simp add: load_model_def)
next
  case (Some cfg)
  then have reg: "map_of (models s) k \<noteq> None" by simp
  show ?thesis
  proof (cases "lock s")
    case True
    then show ?thesis using assms Some by (simp add: load_model_def)
  next
    case False
    let ?s1 = "set_state k LOADING (s\<lparr>lock := True\<rparr>)"
    have i1: "good_inv ?s1" using assms by (simp add: good_set_state)
    have c: "\<not> (truthy (current_model s) \<and> current_model s \<noteq> Some k) \<Longrightarrow>
             good_inv (final_state (create_engine e k cfg ?s1))"
      using good_create[OF i1, of k e cfg] reg by simp
    have e: "good_inv (set_state k ERROR (s\<lparr>lock := True\<rparr>))"
      using assms by (simp add: good_set_state)
    show ?thesis using assms Some False c i1 e
      by (simp add: load_model_def load_locked_def load_continue_held
               split: option.splits del: trace_set_state)
  qed
qed

lemma good_ensure:
  "good_inv s \<Longrightarrow> good_inv (final_state (ensure_model_loaded e t s))"
  by (simp add: ensure_model_loaded_def good_load split: option.splits prod.splits)

lemma good_run_call: "good_inv s \<Longrightarrow> good_inv (final_state (run_call e c s))"
  by (cases c) (simp_all add: good_load good_unload good_ensure)

lemma good_run: "good_inv s \<Longrightarrow> good_inv (run cs s)"
  by (induction cs arbitrary: s) (auto simp: good_run_call)

lemma good_init: "good_inv init_manager"
  by (simp add: good_inv_def init_inv) (simp add: init_manager_def register_models_def monitor_def)


lemma fst_step_mono: "\<not> fst p \<Longrightarrow> \<not> fst (monitor_step p ev)"
  by (cases p; cases ev) auto

lemma fst_foldl_mono: "\<not> fst p \<Longrightarrow> \<not> fst (foldl monitor_step p evs)"
  by (induction evs arbitrary: p) (auto simp: fst_step_mono)

lemma pending_stays:
  assumes "StateChange A UNLOADED \<notin> set ys" "StateChange A ERROR \<notin> set ys"
    and "fst (foldl monitor_step (True, Some A) ys)"
  shows "foldl monitor_step (True, Some A) ys = (True, Some A)"
  using assms
proof (induction ys rule: rev_induct)
  case Nil
  then show ?case by simp
next
  case (snoc ev ys)
  have "fst (foldl monitor_step (True, Some A) ys)"
    using snoc.prems(3) fst_step_mono[of "foldl monitor_step (True, Some A) ys" ev] by auto
  with snoc have eq: "foldl monitor_step (True, Some A) ys = (True, Some A)" by simp
  show ?case using snoc.prems eq by (cases ev) (auto split: if_splits)
qed

lemma pending_blocks:
  assumes "fst (foldl monitor_step (True, Some A) (ys @ StateChange B LOADED # zs))" "A \<noteq> B"
  shows "StateChange A UNLOADED \<in> set ys \<or> StateChange A ERROR \<in> set ys"
proof (rule ccontr)
  assume n: "\<not> (StateChange A UNLOADED \<in> set ys \<or> StateChange A ERROR \<in> set ys)"
  define q2 where "q2 = foldl monitor_step (True, Some A) ys"
  define q3 where "q3 = monitor_step q2 (StateChange B LOADED)"
  have f3: "fst q3" using assms(1) fst_foldl_mono[of q3 zs] by (auto simp: q2_def q3_def)
  then have f2: "fst q2" using fst_step_mono[of q2] by (auto simp: q3_def)
  have "q2 = (True, Some A)"
    using pending_stays[of A ys] n f2 by (simp add: q2_def)
  then have "\<not> fst q3" using assms(2) by (simp add: q3_def)
  with f3 show False by simp
qed

lemma run_append: "run (cs @ ds) s = run ds (run cs s)"
  by (induction cs arbitrary: s) auto

subsection \<open>The manager after start-up\<close>

text \<open>
  The definitions that a concrete run unfolds to, and the two states the worked examples
  start from, written out.
\<close>

lemmas eval_defs = load_model_def load_locked_def load_continue_def create_engine_def
  set_state_def unload_current_model_def unload_locked_def ensure_model_loaded_def truthy_def
  quiet_env_def load_failure_env_def unload_failure_env_def content_model_def
  translation_model_def engine_constructs_def Let_def

lemma init_eval:
  "init_manager =
     \<lparr>models = [(ascii ''content_transformation'', content_model),
                (ascii ''translation'', translation_model)],
      current_model = None,
      model_states = [(ascii ''content_transformation'', UNLOADED),
                      (ascii ''translation'', UNLOADED)],
      vllm_engine = None,
      lock = False,
      trace = [StateChange (ascii ''content_transformation'') UNLOADED,
               StateChange (ascii ''translation'') UNLOADED]\<rparr>"
  by (simp add: init_manager_def register_models_def set_state_def)

lemma started_eval:
  "started_manager =
     \<lparr>models = [(ascii ''content_transformation'', content_model),
                (ascii ''translation'', translation_model)],
      current_model = Some (ascii ''content_transformation''),
      model_states = [(ascii ''content_transformation'', LOADED),
                      (ascii ''translation'', UNLOADED)],
      vllm_engine = Some (AsyncLLMEngine (name content_model)),
      lock = False,
      trace = [StateChange (ascii ''content_transformation'') UNLOADED,
               StateChange (ascii ''translation'') UNLOADED,
               StateChange (ascii ''content_transformation'') LOADING,
               EngineConstruct (name content_model),
               StateChange (ascii ''content_transformation'') LOADED]\<rparr>"
  by (simp add: started_manager_def init_eval load_model_def load_locked_def load_continue_def
                create_engine_def set_state_def truthy_def quiet_env_def)

lemma started_facts:
  "find (\<lambda>(key, config). task_type config = TRANSLATION) (models started_manager)
     = Some (ascii ''translation'', translation_model)"
  "\<not> lock started_manager"
  "current_model started_manager = Some (ascii ''content_transformation'')"
  "map_of (model_states started_manager) (ascii ''content_transformation'') = Some LOADED"
  by (simp_all add: started_eval content_model_def translation_model_def)

subsection \<open>The classifier counts the keywords that occur\<close>

lemmas classify_defs = determine_task_type_from_messages_def keyword_score_def
  content_keywords_def translation_keywords_def lower_ascii_def quiet_env_def Let_def






subsection \<open>Reachable states, and what holds when no swap is needed\<close>

lemma started_run:
  "started_manager = run [(quiet_env, Load (ascii ''content_transformation''))] init_manager"
  by (simp add: started_manager_def)

lemma loaded_is_current:
  assumes "s = run calls init_manager" "map_of (model_states s) a = Some LOADED"
  shows "current_model s = Some a \<and> a \<noteq> []"
proof -
  have "resident_inv s" using assms(1) run_inv[OF init_inv] by simp
  then show ?thesis using assms(2) by (auto simp: resident_inv_def)
qed

text \<open>
  Over a whole run the order of eviction and fill is never violated: from a reachable
  state with \<open>A\<close> LOADED, whenever another key \<open>B\<close> reaches LOADED in later calls,
  \<open>A\<close> has reached UNLOADED or ERROR before. (\<open>B\<close> gets there only after an
  \<open>unload_current_model\<close> call of its own.)
\<close>

lemma fill_follows_eviction:
  assumes "s = run calls init_manager"
    and "map_of (model_states s) A = Some LOADED" and "A \<noteq> B"
    and "trace (run later s) = trace s @ ys @ StateChange B LOADED # zs"
  shows "StateChange A UNLOADED \<in> set ys \<or> StateChange A ERROR \<in> set ys"
proof -
  have g: "good_inv s" using assms(1) good_run[OF good_init] by simp
  then have "good_inv (run later s)" by (rule good_run)
  then have "fst (monitor (trace s @ ys @ StateChange B LOADED # zs))"
    using assms(4) by (simp add: good_inv_def)
  moreover have "monitor (trace s) = (True, Some A)"
    using g assms(2) by (cases "monitor (trace s)") (auto simp: good_inv_def)
  ultimately show ?thesis
    using pending_blocks[of A ys B zs] assms(3) by (simp add: monitor_snoc)
qed

text \<open>
  Where no swap is needed, \<open>ensure_model_loaded\<close> is idempotent: with the lock free,
  no other model resident, the model for \<open>t\<close> not loaded yet and no failing engine, the
  first call constructs one engine and returns True, and a second call returns True and
  changes nothing.
\<close>

lemma ensure_twice_without_swap:
  assumes "\<not> lock s"
    and "find (\<lambda>(key, config). task_type config = t) (models s) = Some (k, cfg)" "k \<noteq> []"
    and "current_model s = None \<or>
         current_model s = Some k \<and> (\<exists>st. map_of (model_states s) k = Some st \<and> st \<noteq> LOADED)"
    and "\<forall>n. \<not> construct_raises e n"
  shows "\<exists>s1. ensure_model_loaded e t s = Returns True s1 \<and>
              ensure_model_loaded e' t s1 = Returns True s1 \<and>
              engine_constructs (trace s1) = engine_constructs (trace s) + 1"
proof -
  from find_registered[OF assms(2)] obtain c where c: "map_of (models s) k = Some c" by auto
  define s1 where "s1 = final_state (ensure_model_loaded e t s)"
  have 1: "ensure_model_loaded e t s = Returns True s1 \<and> current_model s1 = Some k
     \<and> map_of (model_states s1) k = Some LOADED \<and> models s1 = models s
     \<and> engine_constructs (trace s1) = engine_constructs (trace s) + 1"
    unfolding s1_def using assms c
    by (auto simp: ensure_model_loaded_def load_model_def load_locked_def load_continue_held
                   truthy_def create_engine_def Let_def engine_constructs_def)
  then have "ensure_model_loaded e' t s1 = Returns True s1"
    using assms(2,3) by (simp add: ensure_model_loaded_def)
  with 1 show ?thesis by blast
qed

section \<open>The claims\<close>

text \<open>
  C1 (capacity invariant). Start from the manager as \<open>__init__\<close> leaves it (every
  registered key UNLOADED) and make any sequence of calls of \<open>load_model\<close>,
  \<open>unload_current_model\<close> and \<open>ensure_model_loaded\<close>, each under any environment,
  failing engines included: in the state reached, the set of keys whose state is LOADED
  is finite and has at most one member.
\<close>

theorem C1_at_most_one_loaded:
  "finite (loaded_keys (run calls init_manager)) \<and> card (loaded_keys (run calls init_manager)) \<le> 1"
  by (rule loaded_keys_bound) (rule run_inv [OF init_inv])

text \<open>
  An instance: load the content model, fail to load it again after an unload with a
  failing engine, then load the translation model. The translation key is LOADED at the
  end and it is the only one.
\<close>

theorem C1_at_most_one_loaded_witness:
  "map_of (model_states
     (run [(quiet_env, Load (ascii ''content_transformation'')),
           (quiet_env, Unload),
           (load_failure_env, Ensure CONTENT_TRANSFORMATION),
           (quiet_env, Ensure TRANSLATION)] init_manager)) (ascii ''translation'') = Some LOADED
   \<and> card (loaded_keys
     (run [(quiet_env, Load (ascii ''content_transformation'')),
           (quiet_env, Unload),
           (load_failure_env, Ensure CONTENT_TRANSFORMATION),
           (quiet_env, Ensure TRANSLATION)] init_manager)) \<le> 1"
proof
  show "map_of (model_states
     (run [(quiet_env, Load (ascii ''content_transformation'')),
           (quiet_env, Unload),
           (load_failure_env, Ensure CONTENT_TRANSFORMATION),
           (quiet_env, Ensure TRANSLATION)] init_manager)) (ascii ''translation'') = Some LOADED"
    by (simp add: init_eval eval_defs)
next
  show "card (loaded_keys
     (run [(quiet_env, Load (ascii ''content_transformation'')),
           (quiet_env, Unload),
           (load_failure_env, Ensure CONTENT_TRANSFORMATION),
           (quiet_env, Ensure TRANSLATION)] init_manager)) \<le> 1"
    using C1_at_most_one_loaded by blast
qed

text \<open>
  C2 (a failing unload inside a load). The claim does not hold of the code. When a
  model \<open>a\<close> is resident and another registered key \<open>b\<close> is loaded, the nested
  \<open>unload_current_model\<close> blocks on the lock that \<open>load_model\<close> holds before any of
  its body runs, whatever failure is injected into that body: the call never returns,
  the only state change is \<open>b\<close> to LOADING, \<open>a\<close> keeps the state it had (it is not set
  to ERROR), and no engine construction for \<open>b\<close> is attempted. This is the lock
  defect of C3.
\<close>

theorem C2_failing_unload_never_runs:
  assumes "\<not> lock s" "current_model s = Some a" "a \<noteq> []"
    and "map_of (models s) b = Some cfg" "b \<noteq> a"
  shows "returned (load_model e b s) = None
       \<and> trace (final_state (load_model e b s)) = trace s @ [StateChange b LOADING]
       \<and> map_of (model_states (final_state (load_model e b s))) a = map_of (model_states s) a
       \<and> map_of (model_states (final_state (load_model e b s))) b = Some LOADING
       \<and> engine_constructs (trace (final_state (load_model e b s))) = engine_constructs (trace s)"
proof -
  have l: "load_model e b s = Deadlock (set_state b LOADING (s\<lparr>lock := True\<rparr>))"
    using load_model_swap_deadlock[OF assms(4,1,2,3)] assms(5) by simp
  show ?thesis using assms(5) by (simp add: l engine_constructs_def)
qed

theorem C2_failing_unload_never_runs_witness:
  "returned (load_model unload_failure_env (ascii ''translation'') started_manager) = None
   \<and> trace (final_state (load_model unload_failure_env (ascii ''translation'') started_manager))
       = trace started_manager @ [StateChange (ascii ''translation'') LOADING]
   \<and> map_of (model_states (final_state
        (load_model unload_failure_env (ascii ''translation'') started_manager)))
       (ascii ''content_transformation'') = Some LOADED
   \<and> map_of (model_states (final_state
        (load_model unload_failure_env (ascii ''translation'') started_manager)))
       (ascii ''translation'') = Some LOADING"
proof -
  have m: "map_of (models started_manager) (ascii ''translation'') = Some translation_model"
    by (simp add: started_eval)
  show ?thesis
    using C2_failing_unload_never_runs[OF started_facts(2,3) _ m, of unload_failure_env]
      started_facts(4) by simp
qed

text \<open>
  C3 (a swap returns). The claim does not hold of the code. \<open>load_model\<close> takes the
  manager's \<open>threading.Lock\<close>, which is not re-entrant, and on the swap path calls
  \<open>unload_current_model\<close>, which takes the same lock again: whenever a model \<open>a\<close> is
  resident and a different registered key \<open>b\<close> is asked for, neither
  \<open>ensure_model_loaded\<close> nor \<open>load_model\<close> returns; the manager is left with the lock
  held and \<open>b\<close> in state LOADING.
\<close>

theorem C3_swap_never_returns:
  assumes "find (\<lambda>(key, config). task_type config = t) (models s) = Some (b, cfg)" "b \<noteq> []"
    and "\<not> lock s" and "current_model s = Some a" "a \<noteq> []" "a \<noteq> b"
  shows "returned (ensure_model_loaded e t s) = None \<and> returned (load_model e b s) = None \<and>
         final_state (ensure_model_loaded e t s) = set_state b LOADING (s\<lparr>lock := True\<rparr>)"
proof -
  from find_registered[OF assms(1)] obtain c where "map_of (models s) b = Some c" by auto
  from load_model_swap_deadlock[OF this assms(3,4,5,6)] ensure_swap_deadlock[OF assms]
  show ?thesis by simp
qed

theorem C3_swap_never_returns_witness:
  "returned (ensure_model_loaded quiet_env TRANSLATION started_manager) = None \<and>
   returned (load_model quiet_env (ascii ''translation'') started_manager) = None \<and>
   final_state (ensure_model_loaded quiet_env TRANSLATION started_manager)
     = set_state (ascii ''translation'') LOADING (started_manager\<lparr>lock := True\<rparr>)"
  using C3_swap_never_returns[OF started_facts(1) _ started_facts(2,3), of quiet_env] by simp

text \<open>
  C4 (eviction before fill). The claim does not hold of the code. In every state the
  manager can reach from \<open>__init__\<close> with the lock free and a key \<open>A\<close> LOADED,
  \<open>ensure_model_loaded\<close> for a task type served by another key \<open>B\<close> never returns,
  and the state changes it makes are \<open>B\<close> to LOADING and no more: \<open>A\<close> does not reach
  UNLOADED or ERROR, it stays LOADED, and \<open>B\<close> does not reach LOADED. This is the lock
  defect of C3.
\<close>

theorem C4_swap_reaches_neither:
  assumes "s = run calls init_manager" and "\<not> lock s"
    and "map_of (model_states s) A = Some LOADED"
    and "find (\<lambda>(key, config). task_type config = t) (models s) = Some (B, cfg)" "B \<noteq> A"
  shows "returned (ensure_model_loaded e t s) = None
       \<and> trace (final_state (ensure_model_loaded e t s)) = trace s @ [StateChange B LOADING]
       \<and> map_of (model_states (final_state (ensure_model_loaded e t s))) A = Some LOADED
       \<and> map_of (model_states (final_state (ensure_model_loaded e t s))) B = Some LOADING"
proof -
  have c: "current_model s = Some A" "A \<noteq> []"
    using loaded_is_current[OF assms(1,3)] by simp_all
  have "resident_inv s" using assms(1) run_inv[OF init_inv] by simp
  moreover have "map_of (models s) B \<noteq> None" using find_registered[OF assms(4)] .
  ultimately have b: "B \<noteq> []" by (auto simp: resident_inv_def)
  have "ensure_model_loaded e t s = Deadlock (set_state B LOADING (s\<lparr>lock := True\<rparr>))"
    using ensure_swap_deadlock[OF assms(4) b assms(2) c] assms(5) by simp
  then show ?thesis using assms(3,5) by simp
qed

theorem C4_swap_reaches_neither_witness:
  "returned (ensure_model_loaded quiet_env TRANSLATION started_manager) = None
   \<and> trace (final_state (ensure_model_loaded quiet_env TRANSLATION started_manager))
       = trace started_manager @ [StateChange (ascii ''translation'') LOADING]
   \<and> map_of (model_states (final_state (ensure_model_loaded quiet_env TRANSLATION started_manager)))
       (ascii ''content_transformation'') = Some LOADED
   \<and> map_of (model_states (final_state (ensure_model_loaded quiet_env TRANSLATION started_manager)))
       (ascii ''translation'') = Some LOADING"
  using C4_swap_reaches_neither[OF started_run started_facts(2,4,1), of quiet_env] by simp

text \<open>
  C5 (a failed load is answered with 503). The claim does not hold of the code. The
  handler raises HTTPException(503) inside its own \<open>try\<close>, whose
  \<open>except Exception\<close> catches it and raises HTTPException(500) in its place: whenever
  \<open>ensure_model_loaded\<close> returns False the client gets status 500, with the 503 and
  its reason only inside the detail text.
\<close>

theorem C5_load_failure_answers_500:
  assumes "returned (ensure_model_loaded e (resolve_task_type e request) s) = Some False"
  shows "fst (create_chat_completion e request s)
           = Raises (HTTPException 500 (GenerationError
               (HTTPException 503 (ModelNotReadyFor (resolve_task_type e request))))) \<and>
         status_code (fst (create_chat_completion e request s)) = Some 500"
proof -
  obtain s' where "ensure_model_loaded e (resolve_task_type e request) s = Returns False s'"
    using returned_Some[OF assms] by blast
  then show ?thesis
    by (simp add: create_chat_completion_def chat_completion_try_def)
qed

theorem C5_load_failure_answers_500_witness:
  "returned (ensure_model_loaded load_failure_env TRANSLATION init_manager) = Some False \<and>
   fst (create_chat_completion load_failure_env
          (pdf_request\<lparr>req_task_type := Some (ascii ''translation'')\<rparr>) init_manager)
     = Raises (HTTPException 500 (GenerationError (HTTPException 503 (ModelNotReadyFor TRANSLATION)))) \<and>
   status_code (fst (create_chat_completion load_failure_env
          (pdf_request\<lparr>req_task_type := Some (ascii ''translation'')\<rparr>) init_manager)) = Some 500"
proof -
  have r: "resolve_task_type load_failure_env (pdf_request\<lparr>req_task_type := Some (ascii ''translation'')\<rparr>)
             = TRANSLATION"
    by (simp add: resolve_task_type_def truthy_def TaskType_of_def)
  have f: "returned (ensure_model_loaded load_failure_env TRANSLATION init_manager) = Some False"
    by (simp add: init_eval eval_defs)
  show ?thesis
    using C5_load_failure_answers_500[of load_failure_env
             "pdf_request\<lparr>req_task_type := Some (ascii ''translation'')\<rparr>" init_manager] r f
    by simp
qed



text \<open>
  C7 (a failed load after an eviction). Let a model \<open>a\<close> be resident and be evicted by
  a call of \<open>unload_current_model\<close> that returns True. If the engine construction
  for a registered key \<open>k\<close> then raises, \<open>load_model\<close> returns False, \<open>k\<close> is in state
  ERROR, no model is current, and the evicted key is UNLOADED (unless it is \<open>k\<close>).
\<close>

theorem C7_load_failure:
  assumes "current_model s0 = Some a" "a \<noteq> []"
    and "unload_current_model e0 s0 = Returns True s"
    and "map_of (models s) k = Some cfg" "construct_raises e (name cfg)"
  shows "\<exists>s'. load_model e k s = Returns False s' \<and> map_of (model_states s') k = Some ERROR
           \<and> current_model s' = None
           \<and> map_of (model_states s') a = (if a = k then Some ERROR else Some UNLOADED)"
proof -
  have "current_model s = None \<and> \<not> lock s \<and> map_of (model_states s) a = Some UNLOADED"
    using assms(1,2,3)
    by (auto simp: unload_current_model_def unload_locked_def Let_def truthy_def split: if_splits)
  then show ?thesis using assms(4,5)
    by (simp add: load_model_def load_locked_def load_continue_held truthy_def create_engine_def Let_def)
qed

theorem C7_load_failure_witness:
  "\<exists>s'. load_model load_failure_env (ascii ''translation'')
           (final_state (unload_current_model quiet_env started_manager)) = Returns False s'
        \<and> map_of (model_states s') (ascii ''translation'') = Some ERROR
        \<and> current_model s' = None
        \<and> map_of (model_states s') (ascii ''content_transformation'') = Some UNLOADED"
proof -
  have u: "returned (unload_current_model quiet_env started_manager) = Some True"
    by (simp add: started_eval eval_defs)
  have m: "map_of (models (final_state (unload_current_model quiet_env started_manager)))
             (ascii ''translation'') = Some translation_model"
    by (simp add: started_eval eval_defs)
  have c: "construct_raises load_failure_env (name translation_model)"
    by (simp add: load_failure_env_def quiet_env_def)
  show ?thesis
    using C7_load_failure[OF started_facts(3) _ returned_Some[OF u] m c] by simp
qed

text \<open>
  C8 (idempotence). The claim does not hold of the code. When a model other than the
  one serving task type \<open>t\<close> is resident, the first \<open>ensure_model_loaded\<close> for \<open>t\<close>
  never returns, a second one made in the state it hangs in does not return either,
  and between them no engine is constructed. This is the lock defect of C3; where no
  swap is needed the claim holds (\<open>ensure_twice_without_swap\<close>).
\<close>

theorem C8_ensure_twice_never_returns:
  assumes "\<not> lock s"
    and "find (\<lambda>(key, config). task_type config = t) (models s) = Some (k, cfg)" "k \<noteq> []"
    and "current_model s = Some a" "a \<noteq> []" "a \<noteq> k"
  shows "returned (ensure_model_loaded e t s) = None
       \<and> returned (ensure_model_loaded e' t (final_state (ensure_model_loaded e t s))) = None
       \<and> engine_constructs (trace (final_state
            (ensure_model_loaded e' t (final_state (ensure_model_loaded e t s)))))
          = engine_constructs (trace s)"
proof -
  let ?s1 = "set_state k LOADING (s\<lparr>lock := True\<rparr>)"
  have 1: "ensure_model_loaded e t s = Deadlock ?s1"
    using ensure_swap_deadlock[OF assms(2,3,1,4,5,6)] .
  obtain c where c: "map_of (models s) k = Some c" using find_registered[OF assms(2)] by auto
  have 2: "ensure_model_loaded e' t ?s1 = Deadlock ?s1"
    using assms c by (simp add: ensure_model_loaded_def load_model_def)
  show ?thesis by (simp add: 1 2 engine_constructs_def)
qed

theorem C8_ensure_twice_never_returns_witness:
  "returned (ensure_model_loaded quiet_env TRANSLATION started_manager) = None
   \<and> returned (ensure_model_loaded quiet_env TRANSLATION
        (final_state (ensure_model_loaded quiet_env TRANSLATION started_manager))) = None
   \<and> engine_constructs (trace (final_state (ensure_model_loaded quiet_env TRANSLATION
        (final_state (ensure_model_loaded quiet_env TRANSLATION started_manager)))))
      = engine_constructs (trace started_manager)"
  using C8_ensure_twice_never_returns[OF started_facts(2,1) _ started_facts(3), of quiet_env quiet_env]
  by simp

text \<open>
  C9 (unknown inputs). In every state of the manager, lock held or not: \<open>load_model\<close>
  with a key that is not registered returns False and leaves the whole state as it
  was, and so does the swap handler, which answers with an HTTPException; and
  \<open>ensure_model_loaded\<close> with a task type that no registered model serves returns
  False and leaves the whole state as it was.
\<close>

theorem C9_unknown_inputs_rejected:
  "(map_of (models s) model_key = None \<longrightarrow>
      load_model e model_key s = Returns False s \<and>
      swap_model e model_key s =
        (Raises (HTTPException 500
           (StrOf (HTTPException 400 (UnknownModel model_key (map fst (models s)))))), s))
   \<and> (t \<notin> task_type ` snd ` set (models s) \<longrightarrow> ensure_model_loaded e t s = Returns False s)"
proof (intro conjI impI)
  assume "t \<notin> task_type ` snd ` set (models s)"
  then have "find (\<lambda>(key, config). task_type config = t) (models s) = None"
    by (force simp: find_None_iff)
  then show "ensure_model_loaded e t s = Returns False s"
    by (simp add: ensure_model_loaded_def)
qed (simp_all add: load_model_def swap_model_def swap_model_try_def)

theorem C9_unknown_inputs_rejected_witness:
  "load_model quiet_env (ascii ''nonexistent'') started_manager = Returns False started_manager \<and>
   snd (swap_model quiet_env (ascii ''nonexistent'') started_manager) = started_manager \<and>
   ensure_model_loaded quiet_env TRANSLATION
     (started_manager\<lparr>models := [(ascii ''content_transformation'', content_model)]\<rparr>)
   = Returns False (started_manager\<lparr>models := [(ascii ''content_transformation'', content_model)]\<rparr>)"
proof -
  have 1: "map_of (models started_manager) (ascii ''nonexistent'') = None"
    by (simp add: started_eval)
  have 2: "TRANSLATION \<notin> task_type ` snd ` set (models
             (started_manager\<lparr>models := [(ascii ''content_transformation'', content_model)]\<rparr>))"
    by (simp add: content_model_def)
  show ?thesis
    using C9_unknown_inputs_rejected[of started_manager "ascii ''nonexistent''" quiet_env] 1
      C9_unknown_inputs_rejected[of
        "started_manager\<lparr>models := [(ascii ''content_transformation'', content_model)]\<rparr>"
        "[]" quiet_env TRANSLATION] 2
    by simp
qed

text \<open>
  C10 (an invalid task-type hint). If the \<open>task_type\<close> field of a request is present
  and is neither of the two values of \<open>TaskType\<close>, the task type of the request is the
  classifier's answer for its messages, and the handler does in every state exactly
  what it does for the same request without the field: the hint is dropped and is never
  a reason to reject.
\<close>

theorem C10_invalid_hint_ignored:
  assumes "h \<noteq> ascii ''content_transformation''" "h \<noteq> ascii ''translation''"
  shows "resolve_task_type e (request\<lparr>req_task_type := Some h\<rparr>)
           = determine_task_type_from_messages e (req_messages request) \<and>
         create_chat_completion e (request\<lparr>req_task_type := Some h\<rparr>) s
           = create_chat_completion e (request\<lparr>req_task_type := None\<rparr>) s"
proof -
  have 1: "resolve_task_type e (request\<lparr>req_task_type := Some h\<rparr>)
           = determine_task_type_from_messages e (req_messages request)"
    using assms by (simp add: resolve_task_type_def TaskType_of_def truthy_def)
  have 2: "resolve_task_type e (request\<lparr>req_task_type := None\<rparr>)
           = determine_task_type_from_messages e (req_messages request)"
    by (simp add: resolve_task_type_def truthy_def)
  have "chat_completion_try e (request\<lparr>req_task_type := Some h\<rparr>) s
          = chat_completion_try e (request\<lparr>req_task_type := None\<rparr>) s"
    unfolding chat_completion_try_def 1 2
    by (simp cong: outcome.case_cong option.case_cong if_cong)
  with 1 show ?thesis by (simp add: create_chat_completion_def)
qed

theorem C10_invalid_hint_ignored_witness:
  "resolve_task_type quiet_env (pdf_request\<lparr>req_task_type := Some (ascii ''summarize'')\<rparr>)
     = CONTENT_TRANSFORMATION \<and>
   fst (create_chat_completion quiet_env
          (pdf_request\<lparr>req_task_type := Some (ascii ''summarize'')\<rparr>) started_manager)
     = Responds (ChatCompletion (ascii ''ok'') CONTENT_TRANSFORMATION
                   (Some (ascii ''content_transformation'')))"
proof -
  have 1: "determine_task_type_from_messages quiet_env (req_messages pdf_request)
             = CONTENT_TRANSFORMATION"
    by (simp add: pdf_request_def classify_defs)
  have 2: "fst (create_chat_completion quiet_env (pdf_request\<lparr>req_task_type := None\<rparr>) started_manager)
     = Responds (ChatCompletion (ascii ''ok'') CONTENT_TRANSFORMATION
                   (Some (ascii ''content_transformation'')))"
    by (simp add: create_chat_completion_def chat_completion_try_def resolve_task_type_def
                  pdf_request_def classify_defs started_eval eval_defs)
  show ?thesis
    using C10_invalid_hint_ignored[of "ascii ''summarize''" quiet_env pdf_request started_manager] 1 2
    by simp
qed

end
